theory Spec2Isabelle
  imports Main
begin

section \<open>Data model of package detector\<close>

text \<open>
  The detector (detector/detector.go) is a TCP server: every line of a connection is parsed
  into a metric, filtered by \<open>match\<close>, scored by \<open>detect\<close> and pushed onto a buffered
  channel. The packages it imports (config, models, storage, statedb, cursor, util, log)
  and the file holding its \<open>cache\<close> type are not part of the sources at hand. Their types
  are modelled with the fields the detector touches, their functions are parameters of the
  model (record \<open>collab\<close>), and the cache is modelled from the specification.
\<close>

text \<open>Go \<open>error\<close> values; \<open>statedb.ErrNotFound\<close> is the one the detector tells apart.\<close>

datatype error = ErrNotFound | ErrOther string

text \<open>\<open>models.Metric\<close>; the floating point fields are kept abstract as \<open>'v\<close>.\<close>

record 'v Metric =
  Name :: string
  Stamp :: nat
  Value :: 'v
  Score :: 'v
  Average :: 'v

text \<open>\<open>models.Rule\<close>: the pattern, and whatever else a rule carries as \<open>'p\<close>.\<close>

record 'p Rule =
  Pattern :: string
  Params :: 'p

text \<open>
  Modelled from the spec: the value of \<open>db.Admin.GetRules()\<close>, which is missing from the
  sources: "an ordered sequence of Rule (+ an opaque version/identity token)".
\<close>

record 'p RuleSet =
  Version :: nat
  Rules :: "'p Rule list"

text \<open>\<open>config.Config\<close>, with the fields read by the detector; \<open>LeastC\<close> is a method there.\<close>

record 'v ConfigDetector =
  Port :: nat
  Factor :: 'v
  BlackList :: "string list"

record 'v Config =
  Detector :: "'v ConfigDetector"
  LeastC :: nat

text \<open>\<open>cursor.Cursor\<close> as built by \<open>cursor.New(factor, leastC)\<close>.\<close>

record 'v Cursor =
  wf :: 'v
  leastC :: nat

definition cursor_New :: "'v \<Rightarrow> nat \<Rightarrow> 'v Cursor" where
  "cursor_New f c = \<lparr>wf = f, leastC = c\<rparr>"

text \<open>A buffered Go channel: its capacity and the elements queued, oldest first.\<close>

record 'a chan =
  cap :: nat
  buf :: "'a list"

definition make_chan :: "nat \<Rightarrow> 'a chan" where
  "make_chan n = \<lparr>cap = n, buf = []\<rparr>"

subsection \<open>The matching cache\<close>

text \<open>
  Modelled from the spec: type \<open>cache\<close> and its methods \<open>newCache\<close>,
  \<open>hitWhiteListCache\<close>, \<open>setWLC\<close> and \<open>updateRules\<close> are missing from the sources. The
  specification gives the contract: entries keyed by metric name with value
  (matched, rule or none); \<open>lookup(name)\<close> answers absent or the entry;
  \<open>record(name, matched, rule)\<close> stores one; \<open>invalidateIfStale(version)\<close> "compares a
  cheap identity/version token of the rule set against the token stored at last
  population, and if different, clears the entire cache".
\<close>

record 'p cache =
  entries :: "string \<rightharpoonup> (bool \<times> 'p Rule option)"
  token :: "nat option"

definition newCache :: "'p cache" where
  "newCache = \<lparr>entries = Map.empty, token = None\<rparr>"

text \<open>Modelled from the spec: \<open>lookup\<close>; the Go method returns the pair (hit, verdict).\<close>

definition hitWhiteListCache :: "'p cache \<Rightarrow> 'v Metric \<Rightarrow> bool \<times> bool" where
  "hitWhiteListCache c m =
     (case entries c (Name m) of
        None \<Rightarrow> (False, False)
      | Some (matched, r) \<Rightarrow> (True, matched))"

text \<open>Modelled from the spec: \<open>record\<close>.\<close>

definition setWLC :: "'p cache \<Rightarrow> 'v Metric \<Rightarrow> 'p Rule option \<Rightarrow> bool \<Rightarrow> 'p cache" where
  "setWLC c m r matched = c\<lparr>entries := (entries c)(Name m \<mapsto> (matched, r))\<rparr>"

text \<open>Modelled from the spec: \<open>invalidateIfStale\<close>.\<close>

definition updateRules :: "'p cache \<Rightarrow> 'p RuleSet \<Rightarrow> 'p cache" where
  "updateRules c rs =
     (if token c = Some (Version rs) then c
      else \<lparr>entries = Map.empty, token = Some (Version rs)\<rparr>)"

subsection \<open>Collaborators and observable effects\<close>

text \<open>
  The functions of other packages that the detector calls. \<open>StateGet\<close> returns the Go
  pair (state, err); \<open>StatePut\<close> returns its error and the store it leaves behind;
  \<open>cursorNext\<close> returns the next state and the metric with score and average filled in.
\<close>

record ('v, 'p, 's, 'db) collab =
  utilMatch :: "string \<Rightarrow> string \<Rightarrow> bool"
  AdminGetRules :: "'db \<Rightarrow> 'p RuleSet"
  StateGet :: "'db \<Rightarrow> 'v Metric \<Rightarrow> 's option \<times> error option"
  StatePut :: "'db \<Rightarrow> 'v Metric \<Rightarrow> 's \<Rightarrow> error option \<times> 'db"
  cursorNext :: "'v Cursor \<Rightarrow> 's option \<Rightarrow> 'v Metric \<Rightarrow> 's \<times> 'v Metric"
  parseMetric :: "string \<Rightarrow> error + 'v Metric"

text \<open>
  Every call of a collaborator, every log line and every channel send is recorded, in
  program order, in a trace returned beside the result.
\<close>

datatype level = Debug | Info | Warn | Error

datatype logmsg =
    ConnEstablished
  | ConnDisconnected
  | ParseFailed string error
  | DetectFailed error
  | Scored string
  | ChanFull
  | HitBlackPattern string string
  | HitNoRules string

datatype event =
    CallUtilMatch string string
  | CallGetRules
  | CallStateGet string
  | CallCursorNext string
  | CallStatePut string
  | ChanSend string
  | Log level logmsg

text \<open>The \<open>Detector\<close> struct.\<close>

record ('v, 'p, 'db) Detector =
  cfg :: "'v Config"
  db :: 'db
  rc :: "'v Metric chan"
  hitCache :: "'p cache"
  cursor :: "'v Cursor"

section \<open>The detector\<close>

definition bufferedMetricResultsLimit :: nat where
  "bufferedMetricResultsLimit = 10 * 1024"

definition New :: "'v Config \<Rightarrow> 'db \<Rightarrow> ('v, 'p, 'db) Detector" where
  "New c b =
     \<lparr>cfg = c, db = b, rc = make_chan bufferedMetricResultsLimit,
      hitCache = newCache,
      cursor = cursor_New (Factor (Detector c)) (LeastC c)\<rparr>"

subsection \<open>match\<close>

text \<open>
  The loop over \<open>cfg.Detector.BlackList\<close>: the first pattern that matches the name, with
  the calls of \<open>util.Match\<close> made until then.
\<close>

fun scanBlackList ::
  "(string \<Rightarrow> string \<Rightarrow> bool) \<Rightarrow> string \<Rightarrow> string list \<Rightarrow> string option \<times> event list" where
  "scanBlackList um n [] = (None, [])"
| "scanBlackList um n (p # ps) =
     (if um n p then (Some p, [CallUtilMatch n p])
      else (case scanBlackList um n ps of (r, es) \<Rightarrow> (r, CallUtilMatch n p # es)))"

text \<open>The loop over the rules: the first rule whose pattern matches the name.\<close>

fun scanRules ::
  "(string \<Rightarrow> string \<Rightarrow> bool) \<Rightarrow> string \<Rightarrow> 'p Rule list \<Rightarrow> 'p Rule option \<times> event list" where
  "scanRules um n [] = (None, [])"
| "scanRules um n (r # rs) =
     (if um n (Pattern r) then (Some r, [CallUtilMatch n (Pattern r)])
      else (case scanRules um n rs of (x, es) \<Rightarrow> (x, CallUtilMatch n (Pattern r) # es)))"

text \<open>
  \<open>match\<close> returns its verdict, the detector as it leaves it (only \<open>hitCache\<close> can change)
  and the trace.
\<close>

definition match ::
  "('v, 'p, 's, 'db) collab \<Rightarrow> ('v, 'p, 'db) Detector \<Rightarrow> 'v Metric
     \<Rightarrow> bool \<times> ('v, 'p, 'db) Detector \<times> event list" where
  "match K d m =
     (case hitWhiteListCache (hitCache d) m of (hit, v) \<Rightarrow>
        if hit then (v, d, [])
        else
          (case scanBlackList (utilMatch K) (Name m) (BlackList (Detector (cfg d))) of
             (Some pattern, es) \<Rightarrow>
               (False, d\<lparr>hitCache := setWLC (hitCache d) m None False\<rparr>,
                es @ [Log Debug (HitBlackPattern (Name m) pattern)])
           | (None, es) \<Rightarrow>
               (let rules = AdminGetRules K (db d);
                    c = updateRules (hitCache d) rules
                in case scanRules (utilMatch K) (Name m) (Rules rules) of
                     (Some rule, es') \<Rightarrow>
                       (True, d\<lparr>hitCache := setWLC c m (Some rule) True\<rparr>,
                        es @ CallGetRules # es')
                   | (None, es') \<Rightarrow>
                       (False, d\<lparr>hitCache := c\<rparr>,
                        es @ CallGetRules # es' @ [Log Debug (HitNoRules (Name m))]))))"

subsection \<open>detect\<close>

text \<open>
  \<open>detect\<close> returns the error (\<open>None\<close> is Go's nil), the detector with the store as
  \<open>Put\<close> left it, the metric as \<open>cursor.Next\<close> left it, and the trace.
\<close>

definition detect ::
  "('v, 'p, 's, 'db) collab \<Rightarrow> ('v, 'p, 'db) Detector \<Rightarrow> 'v Metric
     \<Rightarrow> error option \<times> ('v, 'p, 'db) Detector \<times> 'v Metric \<times> event list" where
  "detect K d m =
     (case StateGet K (db d) m of (s, err) \<Rightarrow>
        if err \<noteq> None \<and> err \<noteq> Some ErrNotFound then (err, d, m, [CallStateGet (Name m)])
        else
          (case (if err = Some ErrNotFound then cursorNext K (cursor d) None m
                 else cursorNext K (cursor d) s m) of
             (n, m') \<Rightarrow>
               (case StatePut K (db d) m' n of (perr, b) \<Rightarrow>
                  (perr, d\<lparr>db := b\<rparr>, m',
                   [CallStateGet (Name m), CallCursorNext (Name m), CallStatePut (Name m')]))))"

subsection \<open>handle\<close>

text \<open>
  The \<open>select\<close> with a \<open>default\<close> branch: the send goes through when the channel has
  room, otherwise the metric is dropped with a warning.
\<close>

definition trySend :: "'v Metric chan \<Rightarrow> 'v Metric \<Rightarrow> 'v Metric chan \<times> event list" where
  "trySend ch m =
     (if length (buf ch) < cap ch then (ch\<lparr>buf := buf ch @ [m]\<rparr>, [ChanSend (Name m)])
      else (ch, [Log Warn ChanFull]))"

text \<open>
  The body of the scanner loop for one line of the connection. The elapsed time that the
  debug line prints is left out; the line is recorded with the name of the metric.
\<close>

definition handleLine ::
  "('v, 'p, 's, 'db) collab \<Rightarrow> ('v, 'p, 'db) Detector \<Rightarrow> string
     \<Rightarrow> ('v, 'p, 'db) Detector \<times> event list" where
  "handleLine K d line =
     (case parseMetric K line of
        Inl err \<Rightarrow>
          (d, [Log Error (ParseFailed (if length line > 10 then take 10 line else line) err)])
      | Inr m \<Rightarrow>
          (case match K d m of (ok, d1, es1) \<Rightarrow>
             if ok then
               (case detect K d1 m of (err, d2, m', es2) \<Rightarrow>
                  (case err of
                     Some e \<Rightarrow> (d2, es1 @ es2 @ [Log Error (DetectFailed e)])
                   | None \<Rightarrow>
                       (case trySend (rc d2) m' of (ch, es3) \<Rightarrow>
                          (d2\<lparr>rc := ch\<rparr>, es1 @ es2 @ [Log Debug (Scored (Name m'))] @ es3))))
             else (d1, es1)))"

text \<open>
  The scanner loop over the lines a connection delivers (inside the loop
  \<open>scanner.Err()\<close> is nil: \<open>Scan\<close> answers false once reading fails).
\<close>

fun handleLines ::
  "('v, 'p, 's, 'db) collab \<Rightarrow> ('v, 'p, 'db) Detector \<Rightarrow> string list
     \<Rightarrow> ('v, 'p, 'db) Detector \<times> event list" where
  "handleLines K d [] = (d, [])"
| "handleLines K d (l # ls) =
     (case handleLine K d l of (d1, es1) \<Rightarrow>
        (case handleLines K d1 ls of (d2, es2) \<Rightarrow> (d2, es1 @ es2)))"

definition handle ::
  "('v, 'p, 's, 'db) collab \<Rightarrow> ('v, 'p, 'db) Detector \<Rightarrow> string list
     \<Rightarrow> ('v, 'p, 'db) Detector \<times> event list" where
  "handle K d conn =
     (case handleLines K d conn of (d', es) \<Rightarrow>
        (d', Log Info ConnEstablished # es @ [Log Info ConnDisconnected]))"

section \<open>A concrete instance\<close>

text \<open>
  A small instance of the collaborators, on which the theorems below are evaluated:
  a pattern matches a name when it is \<open>*\<close> or the name itself; the store is a map from
  names to sample counts that refuses to read \<open>bad.get\<close> and to write \<open>bad.put\<close>; the
  cursor counts samples; the parser takes the whole line as the name and rejects the
  empty line.
\<close>

record demoDB =
  adminRules :: "nat RuleSet"
  states :: "string \<rightharpoonup> nat"

definition demoMatch :: "string \<Rightarrow> string \<Rightarrow> bool" where
  "demoMatch n p = (p = ''*'' \<or> p = n)"

definition demoGet :: "demoDB \<Rightarrow> int Metric \<Rightarrow> nat option \<times> error option" where
  "demoGet b m =
     (if Name m = ''bad.get'' then (None, Some (ErrOther ''io''))
      else (case states b (Name m) of
              None \<Rightarrow> (None, Some ErrNotFound)
            | Some s \<Rightarrow> (Some s, None)))"

definition demoPut :: "demoDB \<Rightarrow> int Metric \<Rightarrow> nat \<Rightarrow> error option \<times> demoDB" where
  "demoPut b m n =
     (if Name m = ''bad.put'' then (Some (ErrOther ''io''), b)
      else (None, b\<lparr>states := (states b)(Name m \<mapsto> n)\<rparr>))"

definition demoNext :: "int Cursor \<Rightarrow> nat option \<Rightarrow> int Metric \<Rightarrow> nat \<times> int Metric" where
  "demoNext c s m =
     (case s of None \<Rightarrow> (1, m\<lparr>Score := 0, Average := Value m\<rparr>)
              | Some k \<Rightarrow> (Suc k, m\<lparr>Score := 1\<rparr>))"

definition demoMetric :: "string \<Rightarrow> int Metric" where
  "demoMetric n = \<lparr>Name = n, Stamp = 1700000000, Value = 100, Score = 0, Average = 0\<rparr>"

definition demoParse :: "string \<Rightarrow> error + int Metric" where
  "demoParse line = (if line = [] then Inl (ErrOther ''empty'') else Inr (demoMetric line))"

definition demoK :: "(int, nat, nat, demoDB) collab" where
  "demoK =
     \<lparr>utilMatch = demoMatch, AdminGetRules = adminRules, StateGet = demoGet,
      StatePut = demoPut, cursorNext = demoNext, parseMetric = demoParse\<rparr>"

definition ruleLatency :: "nat Rule" where
  "ruleLatency = \<lparr>Pattern = ''svc.latency'', Params = 3\<rparr>"

definition ruleAny :: "nat Rule" where
  "ruleAny = \<lparr>Pattern = ''*'', Params = 5\<rparr>"

definition ruleAnyLate :: "nat Rule" where
  "ruleAnyLate = \<lparr>Pattern = ''*'', Params = 9\<rparr>"

definition dbOne :: demoDB where
  "dbOne = \<lparr>adminRules = \<lparr>Version = 1, Rules = [ruleLatency]\<rparr>, states = Map.empty\<rparr>"

definition dbTwo :: demoDB where
  "dbTwo = \<lparr>adminRules = \<lparr>Version = 2, Rules = []\<rparr>, states = Map.empty\<rparr>"

definition dbThree :: demoDB where
  "dbThree =
     \<lparr>adminRules = \<lparr>Version = 3, Rules = [ruleLatency, ruleAny, ruleAnyLate]\<rparr>,
      states = Map.empty\<rparr>"

definition dbFour :: demoDB where
  "dbFour =
     \<lparr>adminRules = \<lparr>Version = 4, Rules = [ruleLatency, ruleAny, ruleAnyLate]\<rparr>,
      states = [''svc.latency'' \<mapsto> 41]\<rparr>"

definition cfgOne :: "int Config" where
  "cfgOne = \<lparr>Detector = \<lparr>Port = 2015, Factor = 5, BlackList = [''foo.bar'']\<rparr>, LeastC = 18\<rparr>"

definition cfgTwo :: "int Config" where
  "cfgTwo = \<lparr>Detector = \<lparr>Port = 80, Factor = 9, BlackList = []\<rparr>, LeastC = 1\<rparr>"

text \<open>
  The detector after \<open>svc.latency\<close> was matched under rule set 1, at a moment when the
  rule administration has moved on to rule set 2, which has no rule at all.
\<close>

definition dStale :: "(int, nat, demoDB) Detector" where
  "dStale = (fst (snd (match demoK (New cfgOne dbOne) (demoMetric ''svc.latency''))))\<lparr>db := dbTwo\<rparr>"

text \<open>A detector whose result channel is full (capacity 1, one metric queued).\<close>

definition dFull :: "(int, nat, demoDB) Detector" where
  "dFull = (New cfgOne dbOne)\<lparr>rc := \<lparr>cap = 1, buf = [demoMetric ''old'']\<rparr>\<rparr>"

section \<open>Evaluation and the exits of match\<close>

lemmas demo_defs = demoK_def demoMatch_def demoGet_def demoPut_def demoNext_def demoMetric_def
  demoParse_def ruleLatency_def ruleAny_def ruleAnyLate_def dbOne_def dbTwo_def dbThree_def dbFour_def
  cfgOne_def cfgTwo_def New_def newCache_def make_chan_def cursor_New_def
  bufferedMetricResultsLimit_def dStale_def dFull_def

lemmas code_defs = match_def hitWhiteListCache_def setWLC_def updateRules_def detect_def
  trySend_def handleLine_def

lemma scanBlackList_fst: "fst (scanBlackList um n ps) = find (um n) ps"
  by (induction ps) (auto split: prod.splits)

lemma scanRules_fst: "fst (scanRules um n rs) = find (\<lambda>r. um n (Pattern r)) rs"
  by (induction rs) (auto split: prod.splits)

lemma scanBlackList_trace: "CallGetRules \<notin> set (snd (scanBlackList um n ps))"
  by (induction ps) (auto split: prod.splits)

lemma find_first:
  "find P xs = Some x \<longleftrightarrow> (\<exists>pre post. xs = pre @ x # post \<and> P x \<and> (\<forall>q\<in>set pre. \<not> P q))"
proof (induction xs)
  case Nil
  then show ?case by simp
next
  case (Cons a xs)
  show ?case
  proof (cases "P a")
    case True
    have "(\<exists>pre post. a # xs = pre @ x # post \<and> P x \<and> (\<forall>q\<in>set pre. \<not> P q)) \<longleftrightarrow> a = x"
    proof
      assume "\<exists>pre post. a # xs = pre @ x # post \<and> P x \<and> (\<forall>q\<in>set pre. \<not> P q)"
      then obtain pre post where h: "a # xs = pre @ x # post" "\<forall>q\<in>set pre. \<not> P q" by blast
      show "a = x"
      proof (cases pre)
        case Nil
        with h show ?thesis by simp
      next
        case (Cons b bs)
        with h True show ?thesis by auto
      qed
    next
      assume "a = x"
      with True have "a # xs = [] @ x # xs \<and> P x \<and> (\<forall>q\<in>set []. \<not> P q)" by simp
      then show "\<exists>pre post. a # xs = pre @ x # post \<and> P x \<and> (\<forall>q\<in>set pre. \<not> P q)" by blast
    qed
    with True show ?thesis by simp
  next
    case False
    have "(\<exists>pre post. a # xs = pre @ x # post \<and> P x \<and> (\<forall>q\<in>set pre. \<not> P q))
       \<longleftrightarrow> (\<exists>pre post. xs = pre @ x # post \<and> P x \<and> (\<forall>q\<in>set pre. \<not> P q))"
    proof
      assume "\<exists>pre post. a # xs = pre @ x # post \<and> P x \<and> (\<forall>q\<in>set pre. \<not> P q)"
      then obtain pre post where h: "a # xs = pre @ x # post" "P x" "\<forall>q\<in>set pre. \<not> P q" by blast
      show "\<exists>pre post. xs = pre @ x # post \<and> P x \<and> (\<forall>q\<in>set pre. \<not> P q)"
      proof (cases pre)
        case Nil
        with h False show ?thesis by simp
      next
        case (Cons b bs)
        with h have "xs = bs @ x # post \<and> P x \<and> (\<forall>q\<in>set bs. \<not> P q)" by simp
        then show ?thesis by blast
      qed
    next
      assume "\<exists>pre post. xs = pre @ x # post \<and> P x \<and> (\<forall>q\<in>set pre. \<not> P q)"
      then obtain pre post where h: "xs = pre @ x # post" "P x" "\<forall>q\<in>set pre. \<not> P q" by blast
      with False have "a # xs = (a # pre) @ x # post \<and> P x \<and> (\<forall>q\<in>set (a # pre). \<not> P q)" by simp
      then show "\<exists>pre post. a # xs = pre @ x # post \<and> P x \<and> (\<forall>q\<in>set pre. \<not> P q)" by blast
    qed
    with False Cons.IH show ?thesis by simp
  qed
qed

lemma find_None: "find P xs = None \<longleftrightarrow> (\<forall>x\<in>set xs. \<not> P x)"
  by (induction xs) auto

text \<open>The three exits of match after a cache miss.\<close>

lemma match_miss_black:
  assumes "entries (hitCache d) (Name m) = None"
    and "fst (scanBlackList (utilMatch K) (Name m) (BlackList (Detector (cfg d)))) = Some p"
  shows "match K d m =
     (False, d\<lparr>hitCache := setWLC (hitCache d) m None False\<rparr>,
      snd (scanBlackList (utilMatch K) (Name m) (BlackList (Detector (cfg d))))
        @ [Log Debug (HitBlackPattern (Name m) p)])"
  using assms
  by (cases "scanBlackList (utilMatch K) (Name m) (BlackList (Detector (cfg d)))")
     (simp add: match_def hitWhiteListCache_def)

lemma match_miss_rule:
  assumes "entries (hitCache d) (Name m) = None"
    and "fst (scanBlackList (utilMatch K) (Name m) (BlackList (Detector (cfg d)))) = None"
    and "fst (scanRules (utilMatch K) (Name m) (Rules (AdminGetRules K (db d)))) = Some r"
  shows "match K d m =
     (True, d\<lparr>hitCache := setWLC (updateRules (hitCache d) (AdminGetRules K (db d))) m (Some r) True\<rparr>,
      snd (scanBlackList (utilMatch K) (Name m) (BlackList (Detector (cfg d))))
        @ CallGetRules # snd (scanRules (utilMatch K) (Name m) (Rules (AdminGetRules K (db d)))))"
  using assms
  by (cases "scanBlackList (utilMatch K) (Name m) (BlackList (Detector (cfg d)))";
      cases "scanRules (utilMatch K) (Name m) (Rules (AdminGetRules K (db d)))")
     (simp add: match_def hitWhiteListCache_def Let_def)

lemma match_miss_none:
  assumes "entries (hitCache d) (Name m) = None"
    and "fst (scanBlackList (utilMatch K) (Name m) (BlackList (Detector (cfg d)))) = None"
    and "fst (scanRules (utilMatch K) (Name m) (Rules (AdminGetRules K (db d)))) = None"
  shows "match K d m =
     (False, d\<lparr>hitCache := updateRules (hitCache d) (AdminGetRules K (db d))\<rparr>,
      snd (scanBlackList (utilMatch K) (Name m) (BlackList (Detector (cfg d))))
        @ CallGetRules # snd (scanRules (utilMatch K) (Name m) (Rules (AdminGetRules K (db d))))
        @ [Log Debug (HitNoRules (Name m))])"
  using assms
  by (cases "scanBlackList (utilMatch K) (Name m) (BlackList (Detector (cfg d)))";
      cases "scanRules (utilMatch K) (Name m) (Rules (AdminGetRules K (db d)))")
     (simp add: match_def hitWhiteListCache_def Let_def)

lemma match_hit:
  assumes "entries (hitCache d) (Name m) = Some (v, r)"
  shows "match K d m = (v, d, [])"
  using assms by (simp add: match_def hitWhiteListCache_def)


lemma scanBlackList_None:
  "(\<forall>p\<in>set ps. \<not> um n p) \<Longrightarrow> fst (scanBlackList um n ps) = None"
  by (simp add: scanBlackList_fst find_None)

lemma scanBlackList_Some:
  "p \<in> set ps \<Longrightarrow> um n p \<Longrightarrow> \<exists>q. fst (scanBlackList um n ps) = Some q"
  by (cases "find (um n) ps") (auto simp: scanBlackList_fst find_None)

text \<open>After a miss that no blacklist pattern and no rule matches, the name still has no entry.\<close>

lemma match_miss_none_entry:
  assumes "entries (hitCache d) (Name m) = None"
    and "\<forall>p\<in>set (BlackList (Detector (cfg d))). \<not> utilMatch K (Name m) p"
    and "\<forall>x\<in>set (Rules (AdminGetRules K (db d))). \<not> utilMatch K (Name m) (Pattern x)"
  shows "fst (match K d m) = False
    \<and> hitCache (fst (snd (match K d m))) = updateRules (hitCache d) (AdminGetRules K (db d))
    \<and> entries (hitCache (fst (snd (match K d m)))) (Name m) = None"
proof -
  have nb: "fst (scanBlackList (utilMatch K) (Name m) (BlackList (Detector (cfg d)))) = None"
    using assms(2) by (rule scanBlackList_None)
  have nr: "fst (scanRules (utilMatch K) (Name m) (Rules (AdminGetRules K (db d)))) = None"
    using assms(3) by (simp add: scanRules_fst find_None)
  from match_miss_none [OF assms(1) nb nr] assms(1) show ?thesis
    by (simp add: updateRules_def)
qed

text \<open>What match and detect leave alone, and the exits of detect and of the loop body.\<close>

lemma match_frame:
  "match K d m = (v, d1, es) \<Longrightarrow>
     cfg d1 = cfg d \<and> db d1 = db d \<and> rc d1 = rc d \<and> cursor d1 = cursor d"
  by (cases "scanBlackList (utilMatch K) (Name m) (BlackList (Detector (cfg d)))";
      cases "scanRules (utilMatch K) (Name m) (Rules (AdminGetRules K (db d)))")
     (auto simp: match_def Let_def split: prod.splits option.splits if_splits)

lemma match_rc_update:
  "match K d m = (v, d1, es) \<Longrightarrow> match K (d\<lparr>rc := ch\<rparr>) m = (v, d1\<lparr>rc := ch\<rparr>, es)"
  by (cases "scanBlackList (utilMatch K) (Name m) (BlackList (Detector (cfg d)))";
      cases "scanRules (utilMatch K) (Name m) (Rules (AdminGetRules K (db d)))")
     (auto simp: match_def Let_def split: prod.splits option.splits if_splits)

lemma detect_get_failed:
  assumes "StateGet K (db d) m = (s, Some e)" and "e \<noteq> ErrNotFound"
  shows "detect K d m = (Some e, d, m, [CallStateGet (Name m)])"
  using assms by (simp add: detect_def)

lemma detect_put:
  assumes "StateGet K (db d) m = (s, err)"
    and "err = None \<or> err = Some ErrNotFound"
    and "cursorNext K (cursor d) (if err = Some ErrNotFound then None else s) m = (n, m')"
  shows "detect K d m =
     (fst (StatePut K (db d) m' n), d\<lparr>db := snd (StatePut K (db d) m' n)\<rparr>, m',
      [CallStateGet (Name m), CallCursorNext (Name m), CallStatePut (Name m')])"
  using assms by (auto simp: detect_def split: prod.splits if_splits)

lemma detect_ok:
  assumes "detect K d m = (None, d2, m', es)"
  shows "\<exists>s err n.
      StateGet K (db d) m = (s, err) \<and> (err = None \<or> err = Some ErrNotFound)
    \<and> cursorNext K (cursor d) (if err = Some ErrNotFound then None else s) m = (n, m')
    \<and> StatePut K (db d) m' n = (None, db d2)
    \<and> d2 = d\<lparr>db := db d2\<rparr>
    \<and> es = [CallStateGet (Name m), CallCursorNext (Name m), CallStatePut (Name m')]"
proof -
  obtain s err where g: "StateGet K (db d) m = (s, err)" by (cases "StateGet K (db d) m")
  obtain n m2 where
    c: "cursorNext K (cursor d) (if err = Some ErrNotFound then None else s) m = (n, m2)"
    by (cases "cursorNext K (cursor d) (if err = Some ErrNotFound then None else s) m")
  have e: "err = None \<or> err = Some ErrNotFound"
  proof (rule ccontr)
    assume "\<not> (err = None \<or> err = Some ErrNotFound)"
    then obtain x where "err = Some x" "x \<noteq> ErrNotFound" by (cases err) auto
    with g have "detect K d m = (Some x, d, m, [CallStateGet (Name m)])"
      by (simp add: detect_get_failed)
    with assms show False by simp
  qed
  from detect_put [OF g e c] assms
  have "m2 = m'" "fst (StatePut K (db d) m' n) = None"
    "d2 = d\<lparr>db := snd (StatePut K (db d) m' n)\<rparr>"
    "es = [CallStateGet (Name m), CallCursorNext (Name m), CallStatePut (Name m')]"
    by auto
  moreover from this have "db d2 = snd (StatePut K (db d) m' n)" by simp
  ultimately have "StatePut K (db d) m' n = (None, db d2)" "d2 = d\<lparr>db := db d2\<rparr>"
    by (simp_all add: prod_eq_iff)
  with g e c \<open>m2 = m'\<close> \<open>es = _\<close> show ?thesis by blast
qed

lemma detect_rc_update:
  "detect K d m = (err, d2, m', es) \<Longrightarrow> detect K (d\<lparr>rc := ch\<rparr>) m = (err, d2\<lparr>rc := ch\<rparr>, m', es)"
  by (auto simp: detect_def split: prod.splits if_splits)

lemma handleLine_scored:
  assumes "parseMetric K line = Inr m"
    and "match K d m = (True, d1, es1)"
    and "detect K d1 m = (None, d2, m', es2)"
  shows "handleLine K d line =
     (d2\<lparr>rc := fst (trySend (rc d2) m')\<rparr>,
      es1 @ es2 @ [Log Debug (Scored (Name m'))] @ snd (trySend (rc d2) m'))"
  using assms by (simp add: handleLine_def split: prod.splits)

text \<open>The loop handles the lines of a connection one after the other.\<close>

lemma handleLines_append:
  "handleLines K d (xs @ ys) =
     (case handleLines K d xs of (d1, es1) \<Rightarrow>
        (case handleLines K d1 ys of (d2, es2) \<Rightarrow> (d2, es1 @ es2)))"
  by (induction xs arbitrary: d) (auto split: prod.splits)

text \<open>
  A connection sending a blacklisted name, an empty line and a name under a rule: only the
  last one reaches the result channel, scored.
\<close>

lemma handle_example:
  "buf (rc (fst (handle demoK (New cfgOne dbThree) [''foo.bar'', [], ''svc.latency''])))
     = [(demoMetric ''svc.latency'')\<lparr>Score := 0, Average := 100\<rparr>]
   \<and> states (db (fst (handle demoK (New cfgOne dbThree) [''foo.bar'', [], ''svc.latency''])))
     = [''svc.latency'' \<mapsto> 1]"
  by (simp add: handle_def demo_defs code_defs)

section \<open>Cache hits\<close>

text \<open>
  C8: when the name of the sample has a cache entry, \<open>match\<close> returns the cached verdict
  and nothing else happens: the detector, and so the cache, is returned as it was, and the
  trace is empty, so neither \<open>GetRules\<close> nor \<open>util.Match\<close> on a blacklist pattern was
  called.
\<close>

theorem match_cache_hit:
  assumes "entries (hitCache d) (Name m) = Some (v, r)"
  shows "match K d m = (v, d, [])"
  using assms by (rule match_hit)

theorem match_cache_hit_witness:
  "entries (hitCache (fst (snd (match demoK (New cfgOne dbThree) (demoMetric ''foo.bar'')))))
      (Name (demoMetric ''foo.bar'')) = Some (False, None)
   \<and> match demoK (fst (snd (match demoK (New cfgOne dbThree) (demoMetric ''foo.bar''))))
        (demoMetric ''foo.bar'')
      = (False, fst (snd (match demoK (New cfgOne dbThree) (demoMetric ''foo.bar''))), [])"
proof -
  have h: "entries (hitCache (fst (snd (match demoK (New cfgOne dbThree) (demoMetric ''foo.bar'')))))
      (Name (demoMetric ''foo.bar'')) = Some (False, None)"
    by (simp add: demo_defs code_defs)
  from h match_cache_hit [OF h] show ?thesis by simp
qed





section \<open>Cache misses\<close>

text \<open>
  C4: when the name has no cache entry and matches some blacklist pattern, \<open>match\<close>
  returns false and the cache becomes the old one with (matched = false, rule = none)
  recorded for the name. The rule set is not consulted: \<open>GetRules\<close> does not occur in the
  trace, and neither the verdict, nor the cache, nor the trace changes when the source of
  the rules and the store behind it are replaced by any others, whatever rules they hold.
\<close>

theorem match_blacklisted:
  assumes "entries (hitCache d) (Name m) = None"
    and "p \<in> set (BlackList (Detector (cfg d)))"
    and "utilMatch K (Name m) p"
  shows "fst (match K d m) = False
    \<and> hitCache (fst (snd (match K d m))) = setWLC (hitCache d) m None False
    \<and> entries (hitCache (fst (snd (match K d m)))) (Name m) = Some (False, None)
    \<and> CallGetRules \<notin> set (snd (snd (match K d m)))
    \<and> (\<forall>g b. match (K\<lparr>AdminGetRules := g\<rparr>) (d\<lparr>db := b\<rparr>) m
              = (False, (fst (snd (match K d m)))\<lparr>db := b\<rparr>, snd (snd (match K d m))))"
proof -
  from assms(2,3) obtain q
    where q: "fst (scanBlackList (utilMatch K) (Name m) (BlackList (Detector (cfg d)))) = Some q"
    using scanBlackList_Some by blast
  note r = match_miss_black [OF assms(1) q]
  have "match (K\<lparr>AdminGetRules := g\<rparr>) (d\<lparr>db := b\<rparr>) m
          = (False, (fst (snd (match K d m)))\<lparr>db := b\<rparr>, snd (snd (match K d m)))" for g b
  proof -
    have "entries (hitCache (d\<lparr>db := b\<rparr>)) (Name m) = None"
      using assms(1) by simp
    moreover have "fst (scanBlackList (utilMatch (K\<lparr>AdminGetRules := g\<rparr>)) (Name m)
        (BlackList (Detector (cfg (d\<lparr>db := b\<rparr>))))) = Some q"
      using q by simp
    ultimately show ?thesis
      using r by (simp add: match_miss_black)
  qed
  with r show ?thesis
    by (simp add: setWLC_def scanBlackList_trace)
qed

theorem match_blacklisted_witness:
  "entries (hitCache (New cfgOne dbThree :: (int, nat, demoDB) Detector))
       (Name (demoMetric ''foo.bar'')) = None
   \<and> BlackList (Detector (cfg (New cfgOne dbThree :: (int, nat, demoDB) Detector))) = [''foo.bar'']
   \<and> utilMatch demoK (Name (demoMetric ''foo.bar'')) ''foo.bar''
   \<and> utilMatch demoK (Name (demoMetric ''foo.bar'')) (Pattern ruleAny)
   \<and> ruleAny \<in> set (Rules (AdminGetRules demoK (db (New cfgOne dbThree :: (int, nat, demoDB) Detector))))
   \<and> fst (match demoK (New cfgOne dbThree) (demoMetric ''foo.bar'')) = False
   \<and> entries (hitCache (fst (snd (match demoK (New cfgOne dbThree) (demoMetric ''foo.bar'')))))
        ''foo.bar'' = Some (False, None)
   \<and> CallGetRules \<notin> set (snd (snd (match demoK (New cfgOne dbThree) (demoMetric ''foo.bar''))))"
proof -
  have h1: "entries (hitCache (New cfgOne dbThree :: (int, nat, demoDB) Detector))
       (Name (demoMetric ''foo.bar'')) = None"
    by (simp add: demo_defs)
  have h2: "''foo.bar'' \<in> set (BlackList (Detector (cfg (New cfgOne dbThree :: (int, nat, demoDB) Detector))))"
    by (simp add: demo_defs)
  have h3: "utilMatch demoK (Name (demoMetric ''foo.bar'')) ''foo.bar''"
    by (simp add: demo_defs)
  have n: "Name (demoMetric ''foo.bar'') = ''foo.bar''"
    by (simp add: demo_defs)
  have "BlackList (Detector (cfg (New cfgOne dbThree :: (int, nat, demoDB) Detector))) = [''foo.bar'']"
    "utilMatch demoK (Name (demoMetric ''foo.bar'')) (Pattern ruleAny)"
    "ruleAny \<in> set (Rules (AdminGetRules demoK (db (New cfgOne dbThree :: (int, nat, demoDB) Detector))))"
    by (simp_all add: demo_defs)
  with h1 h3 match_blacklisted [OF h1 h2 h3] show ?thesis
    unfolding n by blast
qed

text \<open>
  C5: when the name has no cache entry, matches no blacklist pattern and matches some rule
  of the rule set fetched, \<open>match\<close> returns true and records (matched = true, rule = r)
  for the name, where \<open>r\<close> is the first rule in the order of the rule set whose pattern
  matches: the rules before it do not match. The rule chosen depends on the rules and the
  name only: a second detector in the same situation, with another cache, another store
  and another version token but the same list of rules, records the same rule for a
  sample of the same name.
\<close>

theorem match_first_rule:
  assumes "entries (hitCache d) (Name m) = None"
    and "\<forall>p\<in>set (BlackList (Detector (cfg d))). \<not> utilMatch K (Name m) p"
    and "\<exists>x\<in>set (Rules (AdminGetRules K (db d))). utilMatch K (Name m) (Pattern x)"
    and "entries (hitCache d') (Name m') = None"
    and "\<forall>p\<in>set (BlackList (Detector (cfg d'))). \<not> utilMatch K (Name m') p"
    and "Name m' = Name m"
    and "Rules (AdminGetRules K (db d')) = Rules (AdminGetRules K (db d))"
  shows "\<exists>pre r post.
      Rules (AdminGetRules K (db d)) = pre @ r # post
    \<and> utilMatch K (Name m) (Pattern r)
    \<and> (\<forall>q\<in>set pre. \<not> utilMatch K (Name m) (Pattern q))
    \<and> fst (match K d m) = True
    \<and> entries (hitCache (fst (snd (match K d m)))) (Name m) = Some (True, Some r)
    \<and> fst (match K d' m') = True
    \<and> entries (hitCache (fst (snd (match K d' m')))) (Name m) = Some (True, Some r)"
proof -
  let ?P = "\<lambda>x. utilMatch K (Name m) (Pattern x)"
  let ?rs = "Rules (AdminGetRules K (db d))"
  from assms(3) have "find ?P ?rs \<noteq> None"
    by (simp add: find_None)
  then obtain r where f: "find ?P ?rs = Some r" by blast
  then obtain pre post where
    dec: "?rs = pre @ r # post" "?P r" "\<forall>q\<in>set pre. \<not> ?P q"
    unfolding find_first by blast
  have sr: "fst (scanRules (utilMatch K) (Name m) ?rs) = Some r"
    using f by (simp add: scanRules_fst)
  have sr': "fst (scanRules (utilMatch K) (Name m') (Rules (AdminGetRules K (db d')))) = Some r"
    using f assms(6,7) by (simp add: scanRules_fst)
  have nb: "fst (scanBlackList (utilMatch K) (Name m) (BlackList (Detector (cfg d)))) = None"
    using assms(2) by (rule scanBlackList_None)
  have nb': "fst (scanBlackList (utilMatch K) (Name m') (BlackList (Detector (cfg d')))) = None"
    using assms(5) by (rule scanBlackList_None)
  have a: "fst (match K d m) = True
      \<and> entries (hitCache (fst (snd (match K d m)))) (Name m) = Some (True, Some r)"
    using match_miss_rule [OF assms(1) nb sr] by (simp add: setWLC_def)
  have b: "fst (match K d' m') = True
      \<and> entries (hitCache (fst (snd (match K d' m')))) (Name m) = Some (True, Some r)"
    using match_miss_rule [OF assms(4) nb' sr'] assms(6) by (simp add: setWLC_def)
  from dec a b show ?thesis by blast
qed


theorem match_first_rule_witness:
  "entries (hitCache (New cfgOne dbThree :: (int, nat, demoDB) Detector))
       (Name (demoMetric ''cpu.idle'')) = None
   \<and> entries (hitCache (dStale\<lparr>db := dbFour\<rparr>)) (Name ((demoMetric ''cpu.idle'')\<lparr>Value := 7\<rparr>)) = None
   \<and> Rules (AdminGetRules demoK (db (New cfgOne dbThree :: (int, nat, demoDB) Detector)))
        = [ruleLatency, ruleAny, ruleAnyLate]
   \<and> \<not> utilMatch demoK ''cpu.idle'' (Pattern ruleLatency)
   \<and> utilMatch demoK ''cpu.idle'' (Pattern ruleAny)
   \<and> utilMatch demoK ''cpu.idle'' (Pattern ruleAnyLate)
   \<and> fst (match demoK (New cfgOne dbThree) (demoMetric ''cpu.idle'')) = True
   \<and> entries (hitCache (fst (snd (match demoK (New cfgOne dbThree) (demoMetric ''cpu.idle'')))))
        ''cpu.idle'' = Some (True, Some ruleAny)
   \<and> fst (match demoK (dStale\<lparr>db := dbFour\<rparr>) ((demoMetric ''cpu.idle'')\<lparr>Value := 7\<rparr>)) = True
   \<and> entries (hitCache (fst (snd (match demoK (dStale\<lparr>db := dbFour\<rparr>)
                                      ((demoMetric ''cpu.idle'')\<lparr>Value := 7\<rparr>)))))
        ''cpu.idle'' = Some (True, Some ruleAny)"
proof -
  let ?d = "New cfgOne dbThree :: (int, nat, demoDB) Detector"
  let ?m = "demoMetric ''cpu.idle''"
  let ?d' = "dStale\<lparr>db := dbFour\<rparr>"
  let ?m' = "(demoMetric ''cpu.idle'')\<lparr>Value := 7\<rparr>"
  have n: "Name ?m = ''cpu.idle''" by (simp add: demo_defs)
  have h1: "entries (hitCache ?d) (Name ?m) = None" by (simp add: demo_defs)
  have h2: "\<forall>p\<in>set (BlackList (Detector (cfg ?d))). \<not> utilMatch demoK (Name ?m) p"
    by (simp add: demo_defs)
  have h3: "\<exists>x\<in>set (Rules (AdminGetRules demoK (db ?d))). utilMatch demoK (Name ?m) (Pattern x)"
    by (simp add: demo_defs)
  have h4: "entries (hitCache ?d') (Name ?m') = None" by (simp add: demo_defs code_defs)
  have h5: "\<forall>p\<in>set (BlackList (Detector (cfg ?d'))). \<not> utilMatch demoK (Name ?m') p"
    by (simp add: demo_defs code_defs)
  have h6: "Name ?m' = Name ?m" by simp
  have h7: "Rules (AdminGetRules demoK (db ?d')) = Rules (AdminGetRules demoK (db ?d))"
    by (simp add: demo_defs)
  have rs: "Rules (AdminGetRules demoK (db ?d)) = [ruleLatency, ruleAny, ruleAnyLate]"
    by (simp add: demo_defs)
  have um: "\<not> utilMatch demoK ''cpu.idle'' (Pattern ruleLatency)"
    "utilMatch demoK ''cpu.idle'' (Pattern ruleAny)"
    "utilMatch demoK ''cpu.idle'' (Pattern ruleAnyLate)"
    by (simp_all add: demo_defs)
  from match_first_rule [OF h1 h2 h3 h4 h5 h6 h7] obtain pre r post where
    dec: "Rules (AdminGetRules demoK (db ?d)) = pre @ r # post"
      "utilMatch demoK (Name ?m) (Pattern r)"
      "\<forall>q\<in>set pre. \<not> utilMatch demoK (Name ?m) (Pattern q)"
    and res: "fst (match demoK ?d ?m) = True"
      "entries (hitCache (fst (snd (match demoK ?d ?m)))) (Name ?m) = Some (True, Some r)"
      "fst (match demoK ?d' ?m') = True"
      "entries (hitCache (fst (snd (match demoK ?d' ?m')))) (Name ?m) = Some (True, Some r)"
    by blast
  have "r = ruleAny"
  proof (cases pre)
    case Nil
    with dec(1,2) rs um(1) n show ?thesis by simp
  next
    case (Cons a as)
    note c1 = Cons
    show ?thesis
    proof (cases as)
      case Nil
      with c1 dec(1) rs show ?thesis by simp
    next
      case (Cons b bs)
      with c1 dec(1) rs have "b = ruleAny" by simp
      with c1 Cons dec(3) um(2) n show ?thesis by simp
    qed
  qed
  with res h1 h4 rs um show ?thesis unfolding n by simp
qed


text \<open>
  C2 fails on the code: \<open>cpu.idle\<close> has no cache entry, matches neither the blacklist
  pattern \<open>foo.bar\<close> nor the only rule \<open>svc.latency\<close>; \<open>match\<close> returns false, logs
  "hit no rules" and leaves the cache without an entry for the name (\<open>setWLC\<close> is not
  called on this exit, unlike on the blacklist exit), so the next lookup of the name
  misses again.
\<close>

theorem match_no_rule_not_recorded:
  "entries (hitCache (New cfgOne dbOne :: (int, nat, demoDB) Detector)) ''cpu.idle'' = None
   \<and> BlackList (Detector cfgOne) = [''foo.bar'']
   \<and> \<not> utilMatch demoK ''cpu.idle'' ''foo.bar''
   \<and> Rules (AdminGetRules demoK dbOne) = [ruleLatency]
   \<and> \<not> utilMatch demoK ''cpu.idle'' (Pattern ruleLatency)
   \<and> match demoK (New cfgOne dbOne) (demoMetric ''cpu.idle'')
       = (False,
          (New cfgOne dbOne)\<lparr>hitCache := \<lparr>entries = Map.empty, token = Some 1\<rparr>\<rparr>,
          [CallUtilMatch ''cpu.idle'' ''foo.bar'', CallGetRules,
           CallUtilMatch ''cpu.idle'' ''svc.latency'', Log Debug (HitNoRules ''cpu.idle'')])
   \<and> entries (hitCache (fst (snd (match demoK (New cfgOne dbOne) (demoMetric ''cpu.idle'')))))
        ''cpu.idle'' = None
   \<and> hitWhiteListCache
        (hitCache (fst (snd (match demoK (New cfgOne dbOne) (demoMetric ''cpu.idle'')))))
        (demoMetric ''cpu.idle'') = (False, False)"
  by (simp add: demo_defs code_defs)

section \<open>The result channel\<close>

text \<open>
  C3 as stated fails: two configurations that differ in every field give result channels
  of the same capacity, 10240.
\<close>

theorem New_capacity_counterexample:
  "Port (Detector cfgOne) \<noteq> Port (Detector cfgTwo)
   \<and> Factor (Detector cfgOne) \<noteq> Factor (Detector cfgTwo)
   \<and> BlackList (Detector cfgOne) \<noteq> BlackList (Detector cfgTwo)
   \<and> LeastC cfgOne \<noteq> LeastC cfgTwo
   \<and> cap (rc (New cfgOne dbOne :: (int, nat, demoDB) Detector)) = 10240
   \<and> cap (rc (New cfgTwo dbTwo :: (int, nat, demoDB) Detector)) = 10240"
  by (simp add: demo_defs)

text \<open>
  C3, amended: the capacity of the result channel is fixed when \<open>New\<close> builds the
  detector, to the constant \<open>bufferedMetricResultsLimit\<close> = 10 * 1024 = 10240, whatever
  the configuration and the database handle are; the channel starts empty.
\<close>

theorem New_capacity_constant:
  "cap (rc (New c b)) = bufferedMetricResultsLimit
   \<and> bufferedMetricResultsLimit = 10240
   \<and> buf (rc (New c b)) = []"
  by (simp add: New_def make_chan_def bufferedMetricResultsLimit_def)


text \<open>
  C6: for a sample that was matched and scored, the send on the result channel is a total
  step of the loop body with two outcomes. If the channel holds fewer metrics than its
  capacity, the scored metric is appended behind those already queued. If the channel is
  at capacity, the channel is left as it was and the last event of the trace is the
  warning that the channel is full and the metric dropped; nothing was sent.
\<close>

theorem handle_enqueue_never_blocks:
  assumes "parseMetric K line = Inr m"
    and "match K d m = (True, d1, es1)"
    and "detect K d1 m = (None, d2, m', es2)"
  shows "(length (buf (rc d)) < cap (rc d) \<longrightarrow>
            rc (fst (handleLine K d line)) = (rc d)\<lparr>buf := buf (rc d) @ [m']\<rparr>
          \<and> snd (handleLine K d line)
              = es1 @ es2 @ [Log Debug (Scored (Name m')), ChanSend (Name m')])
       \<and> (cap (rc d) \<le> length (buf (rc d)) \<longrightarrow>
            rc (fst (handleLine K d line)) = rc d
          \<and> snd (handleLine K d line)
              = es1 @ es2 @ [Log Debug (Scored (Name m')), Log Warn ChanFull])"
proof -
  from match_frame [OF assms(2)] have "rc d1 = rc d" by simp
  moreover from detect_ok [OF assms(3)] have "d2 = d1\<lparr>db := db d2\<rparr>" by blast
  then have "rc d2 = rc d1" by (cases d2) (simp add: Detector.defs)
  ultimately have r: "rc d2 = rc d" by simp
  show ?thesis
    unfolding handleLine_scored [OF assms] r
    by (simp add: trySend_def)
qed


theorem handle_enqueue_never_blocks_witness:
  "parseMetric demoK ''svc.latency'' = Inr (demoMetric ''svc.latency'')
   \<and> fst (match demoK dFull (demoMetric ''svc.latency'')) = True
   \<and> fst (detect demoK (fst (snd (match demoK dFull (demoMetric ''svc.latency''))))
            (demoMetric ''svc.latency'')) = None
   \<and> cap (rc dFull) = 1 \<and> buf (rc dFull) = [demoMetric ''old'']
   \<and> rc (fst (handleLine demoK dFull ''svc.latency'')) = rc dFull
   \<and> last (snd (handleLine demoK dFull ''svc.latency'')) = Log Warn ChanFull
   \<and> cap (rc (dFull\<lparr>rc := \<lparr>cap = 2, buf = [demoMetric ''old'']\<rparr>\<rparr>)) = 2
   \<and> buf (rc (fst (handleLine demoK (dFull\<lparr>rc := \<lparr>cap = 2, buf = [demoMetric ''old'']\<rparr>\<rparr>)
                      ''svc.latency'')))
       = [demoMetric ''old'', (demoMetric ''svc.latency'')\<lparr>Score := 0, Average := 100\<rparr>]"
proof -
  let ?m = "demoMetric ''svc.latency''"
  let ?m' = "(demoMetric ''svc.latency'')\<lparr>Score := 0, Average := 100\<rparr>"
  let ?e = "dFull\<lparr>rc := \<lparr>cap = 2, buf = [demoMetric ''old'']\<rparr>\<rparr>"
  have p: "parseMetric demoK ''svc.latency'' = Inr ?m"
    by (simp add: demo_defs)
  have f: "fst (match demoK dFull ?m) = True"
    "fst (detect demoK (fst (snd (match demoK dFull ?m))) ?m) = None"
    "fst (snd (snd (detect demoK (fst (snd (match demoK dFull ?m))) ?m))) = ?m'"
    by (simp_all add: demo_defs code_defs)
  have f': "fst (match demoK ?e ?m) = True"
    "fst (detect demoK (fst (snd (match demoK ?e ?m))) ?m) = None"
    "fst (snd (snd (detect demoK (fst (snd (match demoK ?e ?m))) ?m))) = ?m'"
    by (simp_all add: demo_defs code_defs)
  have c: "cap (rc dFull) = 1" "buf (rc dFull) = [demoMetric ''old'']"
    "cap (rc ?e) = 2" "buf (rc ?e) = [demoMetric ''old'']"
    by (simp_all add: demo_defs)
  have h2: "match demoK dFull ?m
      = (True, fst (snd (match demoK dFull ?m)), snd (snd (match demoK dFull ?m)))"
    using f(1) by (simp add: prod_eq_iff)
  have h3: "detect demoK (fst (snd (match demoK dFull ?m))) ?m
      = (None, fst (snd (detect demoK (fst (snd (match demoK dFull ?m))) ?m)), ?m',
         snd (snd (snd (detect demoK (fst (snd (match demoK dFull ?m))) ?m))))"
    using f(2,3) by (simp add: prod_eq_iff)
  have h2': "match demoK ?e ?m
      = (True, fst (snd (match demoK ?e ?m)), snd (snd (match demoK ?e ?m)))"
    using f'(1) by (simp add: prod_eq_iff)
  have h3': "detect demoK (fst (snd (match demoK ?e ?m))) ?m
      = (None, fst (snd (detect demoK (fst (snd (match demoK ?e ?m))) ?m)), ?m',
         snd (snd (snd (detect demoK (fst (snd (match demoK ?e ?m))) ?m))))"
    using f'(2,3) by (simp add: prod_eq_iff)
  from handle_enqueue_never_blocks [OF p h2 h3] c
  have a: "rc (fst (handleLine demoK dFull ''svc.latency'')) = rc dFull"
    "last (snd (handleLine demoK dFull ''svc.latency'')) = Log Warn ChanFull"
    by simp_all
  from handle_enqueue_never_blocks [OF p h2' h3'] c
  have b: "buf (rc (fst (handleLine demoK ?e ''svc.latency''))) = [demoMetric ''old'', ?m']"
    by simp
  from p f(1,2) c a b show ?thesis by simp
qed

section \<open>detect and the state store\<close>

text \<open>
  C7: \<open>detect\<close> returns an error exactly when \<open>Get\<close> returned an error other than
  \<open>ErrNotFound\<close>, or \<open>Get\<close> returned no error or \<open>ErrNotFound\<close> and the \<open>Put\<close> of the
  next state returned an error. When \<open>Get\<close> answers \<open>ErrNotFound\<close>, the cursor is given
  no previous state (nil), the next state is put, and the result of \<open>detect\<close> is the result
  of that \<open>Put\<close>.
\<close>

theorem detect_error_iff:
  "(case StateGet K (db d) m of (s, err) \<Rightarrow>
      (case cursorNext K (cursor d) (if err = Some ErrNotFound then None else s) m of
         (n, m') \<Rightarrow>
           ((fst (detect K d m) \<noteq> None) =
              ((\<exists>e. err = Some e \<and> e \<noteq> ErrNotFound)
               \<or> ((err = None \<or> err = Some ErrNotFound)
                   \<and> fst (StatePut K (db d) m' n) \<noteq> None)))
         \<and> (err = Some ErrNotFound \<longrightarrow>
               (n, m') = cursorNext K (cursor d) None m
             \<and> detect K d m =
                 (fst (StatePut K (db d) m' n), d\<lparr>db := snd (StatePut K (db d) m' n)\<rparr>, m',
                  [CallStateGet (Name m), CallCursorNext (Name m), CallStatePut (Name m')]))))"
proof -
  obtain s err where g: "StateGet K (db d) m = (s, err)" by (cases "StateGet K (db d) m")
  obtain n m' where
    c: "cursorNext K (cursor d) (if err = Some ErrNotFound then None else s) m = (n, m')"
    by (cases "cursorNext K (cursor d) (if err = Some ErrNotFound then None else s) m")
  show ?thesis
  proof (cases "err = None \<or> err = Some ErrNotFound")
    case True
    note r = detect_put [OF g True c]
    from True show ?thesis
    proof
      assume "err = None"
      with c r show ?thesis unfolding g by simp
    next
      assume "err = Some ErrNotFound"
      with c r show ?thesis unfolding g by simp
    qed
  next
    case False
    then obtain e where e: "err = Some e" "e \<noteq> ErrNotFound" by (cases err) auto
    with g have "detect K d m = (Some e, d, m, [CallStateGet (Name m)])"
      by (simp add: detect_get_failed)
    with e show ?thesis
      unfolding g c by simp
  qed
qed

theorem detect_error_iff_witness:
  "StateGet demoK (db (New cfgOne dbFour :: (int, nat, demoDB) Detector)) (demoMetric ''cpu.idle'')
      = (None, Some ErrNotFound)
   \<and> cursorNext demoK (cursor (New cfgOne dbFour :: (int, nat, demoDB) Detector)) None
        (demoMetric ''cpu.idle'')
      = (1, (demoMetric ''cpu.idle'')\<lparr>Score := 0, Average := 100\<rparr>)
   \<and> fst (detect demoK (New cfgOne dbFour) (demoMetric ''cpu.idle'')) = None
   \<and> states (db (fst (snd (detect demoK (New cfgOne dbFour) (demoMetric ''cpu.idle'')))))
        ''cpu.idle'' = Some 1
   \<and> snd (StateGet demoK (db (New cfgOne dbFour :: (int, nat, demoDB) Detector))
            (demoMetric ''bad.put'')) = Some ErrNotFound
   \<and> fst (detect demoK (New cfgOne dbFour) (demoMetric ''bad.put'')) \<noteq> None"
proof -
  let ?d = "New cfgOne dbFour :: (int, nat, demoDB) Detector"
  have g: "StateGet demoK (db ?d) (demoMetric ''cpu.idle'') = (None, Some ErrNotFound)"
    "StateGet demoK (db ?d) (demoMetric ''bad.put'') = (None, Some ErrNotFound)"
    by (simp_all add: demo_defs)
  have c: "cursorNext demoK (cursor ?d) None (demoMetric ''cpu.idle'')
      = (1, (demoMetric ''cpu.idle'')\<lparr>Score := 0, Average := 100\<rparr>)"
    "cursorNext demoK (cursor ?d) None (demoMetric ''bad.put'')
      = (1, (demoMetric ''bad.put'')\<lparr>Score := 0, Average := 100\<rparr>)"
    by (simp_all add: demo_defs)
  have p: "StatePut demoK (db ?d) ((demoMetric ''cpu.idle'')\<lparr>Score := 0, Average := 100\<rparr>) (Suc 0)
      = (None, (db ?d)\<lparr>states := (states (db ?d))(''cpu.idle'' \<mapsto> 1)\<rparr>)"
    "fst (StatePut demoK (db ?d) ((demoMetric ''bad.put'')\<lparr>Score := 0, Average := 100\<rparr>) (Suc 0))
      = Some (ErrOther ''io'')"
    by (simp_all add: demo_defs)
  from detect_error_iff [of demoK ?d "demoMetric ''cpu.idle''"]
  have a: "fst (detect demoK ?d (demoMetric ''cpu.idle'')) = None"
    "states (db (fst (snd (detect demoK ?d (demoMetric ''cpu.idle''))))) ''cpu.idle'' = Some 1"
    by (simp_all add: g c p)
  from detect_error_iff [of demoK ?d "demoMetric ''bad.put''"]
  have b: "fst (detect demoK ?d (demoMetric ''bad.put'')) \<noteq> None"
    by (simp add: g c p)
  from g c a b show ?thesis by simp
qed

text \<open>
  C9: when \<open>Get\<close> returns an error other than \<open>ErrNotFound\<close>, \<open>detect\<close> returns that
  error; the detector, and so its state store, and the metric are returned as they were,
  and the trace holds the call of \<open>Get\<close> only: the cursor computed no next state and
  \<open>Put\<close> was not called.
\<close>

theorem detect_get_error_no_put:
  assumes "snd (StateGet K (db d) m) = Some e" and "e \<noteq> ErrNotFound"
  shows "detect K d m = (Some e, d, m, [CallStateGet (Name m)])
    \<and> db (fst (snd (detect K d m))) = db d
    \<and> (\<forall>n. CallStatePut n \<notin> set (snd (snd (snd (detect K d m))))
          \<and> CallCursorNext n \<notin> set (snd (snd (snd (detect K d m)))))"
proof -
  from assms(1) have "StateGet K (db d) m = (fst (StateGet K (db d) m), Some e)"
    by (simp add: prod_eq_iff)
  from detect_get_failed [OF this assms(2)] show ?thesis by simp
qed

theorem detect_get_error_no_put_witness:
  "snd (StateGet demoK (db (New cfgOne dbFour :: (int, nat, demoDB) Detector))
          (demoMetric ''bad.get'')) = Some (ErrOther ''io'')
   \<and> detect demoK (New cfgOne dbFour) (demoMetric ''bad.get'')
       = (Some (ErrOther ''io''), New cfgOne dbFour, demoMetric ''bad.get'',
          [CallStateGet ''bad.get''])
   \<and> states (db (fst (snd (detect demoK (New cfgOne dbFour) (demoMetric ''bad.get'')))))
       = states dbFour"
proof -
  let ?d = "New cfgOne dbFour :: (int, nat, demoDB) Detector"
  have h: "snd (StateGet demoK (db ?d) (demoMetric ''bad.get'')) = Some (ErrOther ''io'')"
    by (simp add: demo_defs)
  have n: "Name (demoMetric ''bad.get'') = ''bad.get''" "db ?d = dbFour"
    by (simp_all add: demo_defs)
  from detect_get_error_no_put [OF h] h n show ?thesis by simp
qed


section \<open>Baseline update and enqueue\<close>

text \<open>
  C10: for a sample that was matched and scored without error, the loop body has put the
  next state into the store, successfully, before it tries the send: the store the loop
  body leaves is the one that \<open>Put\<close> returned, and in the trace the call of \<open>Put\<close> comes
  before the events of the send. What the channel holds has no influence on the store: the
  loop body started with any other channel in place of the detector's, full or not, leaves
  the same store.
\<close>

theorem handle_persists_before_enqueue:
  assumes "parseMetric K line = Inr m"
    and "match K d m = (True, d1, es1)"
    and "detect K d1 m = (None, d2, m', es2)"
  shows "\<exists>s err n.
      StateGet K (db d) m = (s, err)
    \<and> cursorNext K (cursor d) (if err = Some ErrNotFound then None else s) m = (n, m')
    \<and> StatePut K (db d) m' n = (None, db (fst (handleLine K d line)))
    \<and> snd (handleLine K d line)
        = es1 @ [CallStateGet (Name m), CallCursorNext (Name m), CallStatePut (Name m'),
                 Log Debug (Scored (Name m'))] @ snd (trySend (rc d) m')
    \<and> (\<forall>ch. db (fst (handleLine K (d\<lparr>rc := ch\<rparr>) line)) = db (fst (handleLine K d line)))"
proof -
  from match_frame [OF assms(2)]
  have fr: "db d1 = db d" "cursor d1 = cursor d" "rc d1 = rc d" by simp_all
  from detect_ok [OF assms(3)] obtain s err n where
    ok: "StateGet K (db d) m = (s, err)"
      "cursorNext K (cursor d) (if err = Some ErrNotFound then None else s) m = (n, m')"
      "StatePut K (db d) m' n = (None, db d2)"
      "d2 = d1\<lparr>db := db d2\<rparr>"
      "es2 = [CallStateGet (Name m), CallCursorNext (Name m), CallStatePut (Name m')]"
    unfolding fr by blast
  from ok(4) have "rc d2 = rc (d1\<lparr>db := db d2\<rparr>)" by simp
  with fr have r: "rc d2 = rc d" by simp
  note h = handleLine_scored [OF assms]
  have a: "db (fst (handleLine K d line)) = db d2"
    unfolding h by simp
  have b: "snd (handleLine K d line)
        = es1 @ [CallStateGet (Name m), CallCursorNext (Name m), CallStatePut (Name m'),
                 Log Debug (Scored (Name m'))] @ snd (trySend (rc d) m')"
    unfolding h r ok(5) by simp
  have c: "db (fst (handleLine K (d\<lparr>rc := ch\<rparr>) line)) = db (fst (handleLine K d line))" for ch
  proof -
    have "match K (d\<lparr>rc := ch\<rparr>) m = (True, d1\<lparr>rc := ch\<rparr>, es1)"
      using assms(2) by (rule match_rc_update)
    moreover have "detect K (d1\<lparr>rc := ch\<rparr>) m = (None, d2\<lparr>rc := ch\<rparr>, m', es2)"
      using assms(3) by (rule detect_rc_update)
    ultimately have "db (fst (handleLine K (d\<lparr>rc := ch\<rparr>) line)) = db d2"
      using assms(1) by (simp add: handleLine_scored)
    with a show ?thesis by simp
  qed
  from ok(1,2,3) a b c show ?thesis by auto
qed

theorem handle_persists_before_enqueue_witness:
  "parseMetric demoK ''svc.latency'' = Inr (demoMetric ''svc.latency'')
   \<and> fst (match demoK (dFull\<lparr>db := dbFour\<rparr>) (demoMetric ''svc.latency'')) = True
   \<and> fst (detect demoK (fst (snd (match demoK (dFull\<lparr>db := dbFour\<rparr>) (demoMetric ''svc.latency''))))
            (demoMetric ''svc.latency'')) = None
   \<and> states dbFour ''svc.latency'' = Some 41
   \<and> length (buf (rc (dFull\<lparr>db := dbFour\<rparr>))) = cap (rc (dFull\<lparr>db := dbFour\<rparr>))
   \<and> states (db (fst (handleLine demoK (dFull\<lparr>db := dbFour\<rparr>) ''svc.latency'')))
        ''svc.latency'' = Some 42
   \<and> rc (fst (handleLine demoK (dFull\<lparr>db := dbFour\<rparr>) ''svc.latency'')) = rc dFull
   \<and> snd (handleLine demoK (dFull\<lparr>db := dbFour\<rparr>) ''svc.latency'')
       = snd (snd (match demoK (dFull\<lparr>db := dbFour\<rparr>) (demoMetric ''svc.latency'')))
         @ [CallStateGet ''svc.latency'', CallCursorNext ''svc.latency'',
            CallStatePut ''svc.latency'', Log Debug (Scored ''svc.latency''), Log Warn ChanFull]"
proof -
  let ?d = "dFull\<lparr>db := dbFour\<rparr>"
  let ?m = "demoMetric ''svc.latency''"
  let ?m' = "(demoMetric ''svc.latency'')\<lparr>Score := 1\<rparr>"
  have p: "parseMetric demoK ''svc.latency'' = Inr ?m"
    by (simp add: demo_defs)
  have f: "fst (match demoK ?d ?m) = True"
    "fst (detect demoK (fst (snd (match demoK ?d ?m))) ?m) = None"
    "fst (snd (snd (detect demoK (fst (snd (match demoK ?d ?m))) ?m))) = ?m'"
    by (simp_all add: demo_defs code_defs)
  have h2: "match demoK ?d ?m = (True, fst (snd (match demoK ?d ?m)), snd (snd (match demoK ?d ?m)))"
    using f(1) by (simp add: prod_eq_iff)
  have h3: "detect demoK (fst (snd (match demoK ?d ?m))) ?m
      = (None, fst (snd (detect demoK (fst (snd (match demoK ?d ?m))) ?m)), ?m',
         snd (snd (snd (detect demoK (fst (snd (match demoK ?d ?m))) ?m))))"
    using f(2,3) by (simp add: prod_eq_iff)
  have g: "StateGet demoK (db ?d) ?m = (Some 41, None)"
    "cursorNext demoK (cursor ?d) (Some 41) ?m = (42, ?m')"
    "StatePut demoK (db ?d) ?m' 42 = (None, dbFour\<lparr>states := (states dbFour)(''svc.latency'' \<mapsto> 42)\<rparr>)"
    "trySend (rc dFull) ?m' = (rc dFull, [Log Warn ChanFull])"
    "states dbFour ''svc.latency'' = Some 41"
    "length (buf (rc ?d)) = cap (rc ?d)"
    "Name ?m = ''svc.latency''" "Name ?m' = ''svc.latency''"
    by (simp_all add: demo_defs code_defs)
  from handle_persists_before_enqueue [OF p h2 h3] obtain s err n where
    r: "StateGet demoK (db ?d) ?m = (s, err)"
      "cursorNext demoK (cursor ?d) (if err = Some ErrNotFound then None else s) ?m = (n, ?m')"
      "StatePut demoK (db ?d) ?m' n = (None, db (fst (handleLine demoK ?d ''svc.latency'')))"
      "snd (handleLine demoK ?d ''svc.latency'')
        = snd (snd (match demoK ?d ?m))
          @ [CallStateGet (Name ?m), CallCursorNext (Name ?m), CallStatePut (Name ?m'),
             Log Debug (Scored (Name ?m'))] @ snd (trySend (rc ?d) ?m')"
    by blast
  from r(1) g(1) have "s = Some 41" "err = None" by simp_all
  with r(2) g(2) have "n = 42" by simp
  with r(3) g(3) have a: "db (fst (handleLine demoK ?d ''svc.latency''))
      = dbFour\<lparr>states := (states dbFour)(''svc.latency'' \<mapsto> 42)\<rparr>"
    by simp
  have b: "rc (fst (handleLine demoK ?d ''svc.latency'')) = rc dFull"
    unfolding handleLine_scored [OF p h2 h3]
    using g(4) match_frame [OF h2] detect_rc_update [OF h3, of "rc dFull"]
    by (simp add: demo_defs code_defs)
  from p f(1,2) g(5,6) a b r(4) show ?thesis
    by (simp add: g)
qed

end
